theory Spec2Isabelle
  imports
    Complex_Main
    "HOL-Library.Sublist"
    "HOL-Library.Char_ord"
    "HOL-Library.List_Lexorder"
    "HOL-Library.Multiset"
begin

section \<open>Python values\<close>

text \<open>
  Python strings are modelled as \<^typ>\<open>string\<close>, one \<^typ>\<open>char\<close> per character
  (ASCII text); \<open>len\<close> is \<^const>\<open>length\<close> and the slice \<open>s[:n]\<close> is \<^term>\<open>take n s\<close>.
  Python floats are modelled as \<^typ>\<open>real\<close>: the weighted sums and threshold
  comparisons of the source are read as exact arithmetic.
  A raised exception is a value \<open>Inl e\<close> of a sum type.
\<close>

datatype py_error =
  TypeError
  | IndexError
  | ValidationError
  | GatewayError string

definition is_upper :: "char \<Rightarrow> bool" where
  "is_upper c = (65 \<le> (of_char c :: nat) \<and> (of_char c :: nat) \<le> 90)"

definition lower_char :: "char \<Rightarrow> char" where
  "lower_char c = (if is_upper c then char_of ((of_char c :: nat) + 32) else c)"

text \<open>\<open>s.lower()\<close>\<close>

definition str_lower :: "string \<Rightarrow> string" where
  "str_lower s = map lower_char s"

text \<open>\<open>sub in s\<close> for two strings: \<open>sub\<close> occurs in \<open>s\<close> as a contiguous substring.\<close>

definition str_in :: "string \<Rightarrow> string \<Rightarrow> bool" where
  "str_in sub s = sublist sub s"

text \<open>The characters \<open>str.isspace\<close> accepts in the ASCII range.\<close>

definition is_space :: "char \<Rightarrow> bool" where
  "is_space c =
     (let n = (of_char c :: nat) in n = 32 \<or> (9 \<le> n \<and> n \<le> 13) \<or> (28 \<le> n \<and> n \<le> 31))"

text \<open>\<open>s.strip()\<close>\<close>

definition str_strip :: "string \<Rightarrow> string" where
  "str_strip s = rev (dropWhile is_space (rev (dropWhile is_space s)))"

text \<open>\<open>s.split()\<close>: the maximal runs of non-whitespace characters, in order.\<close>

fun split_acc :: "string \<Rightarrow> string \<Rightarrow> string list" where
  "split_acc w [] = (if w = [] then [] else [rev w])"
| "split_acc w (c # cs) =
     (if is_space c then (if w = [] then split_acc [] cs else rev w # split_acc [] cs)
      else split_acc (c # w) cs)"

definition str_split :: "string \<Rightarrow> string list" where
  "str_split s = split_acc [] s"

text \<open>\<open>sep.join(xs)\<close>\<close>

fun str_join :: "string \<Rightarrow> string list \<Rightarrow> string" where
  "str_join sep [] = []"
| "str_join sep [x] = x"
| "str_join sep (x # y # ys) = x @ sep @ str_join sep (y # ys)"


text \<open>
  \<open>xs.sort(key=f, reverse=True)\<close>: Python's sort is stable, also with \<open>reverse=True\<close>
  (elements with equal keys keep their relative order), so the list is the stable
  insertion sort on the negated key.
\<close>

definition sort_reverse :: "('a \<Rightarrow> real) \<Rightarrow> 'a list \<Rightarrow> 'a list" where
  "sort_reverse f xs = sort_key (\<lambda>x. - f x) xs"

section \<open>Domain models (\<open>graphrag/core/models.py\<close>)\<close>

datatype ClassificationLevel = PUBLIC | INTERNAL | CONFIDENTIAL | RESTRICTED


datatype QueryIntent = PROCEDURE | TROUBLESHOOTING | DEFINITION | ASSET_INFO | SAFETY


text \<open>\<open>EntityType\<close>; the constructors carry the prefix \<open>ET_\<close> because two of the
  enum's names are also names of other enums.\<close>

datatype EntityType =
  ET_ASSET | ET_COMPONENT | ET_FAILURE_MODE | ET_SYMPTOM | ET_PROCEDURE | ET_TOOL
  | ET_MATERIAL | ET_SAFETY_RULE | ET_TERM | ET_STANDARD | ET_LOCATION | ET_MANUFACTURER

fun entity_type_value :: "EntityType \<Rightarrow> string" where
  "entity_type_value ET_ASSET = ''ASSET''"
| "entity_type_value ET_COMPONENT = ''COMPONENT''"
| "entity_type_value ET_FAILURE_MODE = ''FAILURE_MODE''"
| "entity_type_value ET_SYMPTOM = ''SYMPTOM''"
| "entity_type_value ET_PROCEDURE = ''PROCEDURE''"
| "entity_type_value ET_TOOL = ''TOOL''"
| "entity_type_value ET_MATERIAL = ''MATERIAL''"
| "entity_type_value ET_SAFETY_RULE = ''SAFETY_RULE''"
| "entity_type_value ET_TERM = ''TERM''"
| "entity_type_value ET_STANDARD = ''STANDARD''"
| "entity_type_value ET_LOCATION = ''LOCATION''"
| "entity_type_value ET_MANUFACTURER = ''MANUFACTURER''"

text \<open>
  The metadata dictionary of a search result. The pipeline reads four of its keys;
  each is present or not, with the type the \<open>Citation\<close> model declares for it.
\<close>

record Metadata =
  md_doc_type :: "string option"
  md_title :: "string option"
  md_section :: "string option"
  md_page :: "int option"

record VectorSearchResult =
  chunk_id :: string
  doc_id :: string
  content :: string
  score :: real
  metadata :: Metadata

record ExtractedEntity =
  ee_name :: string
  ee_type :: EntityType
  ee_confidence :: real
  ee_context :: string
  ee_source_chunk_id :: "string option"

text \<open>A node of a traversed path is a property dictionary; the pipeline reads the
  keys \<open>id\<close> and \<open>name\<close>.\<close>

record GraphNode =
  node_id :: "string option"
  node_name :: "string option"

record GraphPath =
  nodes :: "GraphNode list"
  relationships :: "string list"

record GraphFact =
  fact :: string
  source_nodes :: "string list"
  path :: GraphPath
  gf_confidence :: real

record Citation =
  c_doc_id :: string
  c_doc_title :: "string option"
  c_section :: "string option"
  c_page :: "int option"
  excerpt :: string
  relevance_score :: real

record SafetyRule =
  sr_content :: string
  sr_source :: string
  sr_type :: string

record EvidencePack =
  passages :: "VectorSearchResult list"
  ep_graph_facts :: "GraphFact list"
  safety_rules :: "SafetyRule list"
  ep_citations :: "Citation list"
  conflicts :: "(string \<times> string) list"

record SafetyEscalation =
  reason :: string
  severity :: string
  recommended_action :: string
  contact_roles :: "string list"

text \<open>An entry of \<open>fused_evidence\<close>: a dictionary with the keys \<open>content\<close>, \<open>score\<close>,
  \<open>source\<close> and either \<open>doc_id\<close> or \<open>nodes\<close>.\<close>

record FusedItem =
  fi_content :: string
  fi_score :: real
  fi_source :: string
  fi_doc_id :: "string option"
  fi_nodes :: "string list option"

text \<open>\<open>RetrievalState\<close>, without the stage timings (wall-clock readings that no
  decision of the pipeline depends on).\<close>

record RetrievalState =
  query :: string
  user_id :: string
  session_id :: string
  access_level :: ClassificationLevel
  trace_id :: string
  normalized_query :: string
  intent :: "QueryIntent option"
  metadata_filters :: "(string \<times> string list) list"
  vector_candidates :: "VectorSearchResult list"
  extracted_entities :: "ExtractedEntity list"
  graph_facts :: "GraphFact list"
  expanded_context :: "GraphNode list"
  reranked_evidence :: "VectorSearchResult list"
  evidence_pack :: "EvidencePack option"
  skip_vector :: "VectorSearchResult list"
  skip_graph :: "GraphFact list"
  skip_rerank :: "VectorSearchResult list"
  fused_evidence :: "FusedItem list"
  answer :: string
  citations :: "Citation list"
  confidence :: real
  safety_escalation :: "SafetyEscalation option"

section \<open>Routing after evidence assembly (\<open>graph.py\<close>)\<close>

datatype sufficiency = Sufficient | Insufficient | Safety_critical

definition safety_keywords :: "string list" where
  "safety_keywords = [''bypass'', ''override'', ''shortcut'', ''skip'', ''disable'']"

definition evidence_sufficiency_check :: "RetrievalState \<Rightarrow> sufficiency" where
  "evidence_sufficiency_check state =
     (case evidence_pack state of
        None \<Rightarrow> Insufficient
      | Some evidence \<Rightarrow>
          if safety_rules evidence \<noteq> []
             \<and> list_ex (\<lambda>kw. str_in kw (str_lower (query state))) safety_keywords
          then Safety_critical
          else if length (passages evidence) + length (ep_graph_facts evidence) < 2
          then Insufficient
          else if ep_citations evidence = [] then Insufficient
          else Sufficient)"


text \<open>The state \<open>run_retrieval\<close> starts a run from: the five inputs, every other
  field at the default the model declares.\<close>

definition initial_state ::
  "string \<Rightarrow> string \<Rightarrow> string \<Rightarrow> ClassificationLevel \<Rightarrow> string \<Rightarrow> RetrievalState" where
  "initial_state q uid sid lvl tid =
     \<lparr>query = q, user_id = uid, session_id = sid, access_level = lvl, trace_id = tid,
      normalized_query = [], intent = None, metadata_filters = [],
      vector_candidates = [], extracted_entities = [], graph_facts = [],
      expanded_context = [], reranked_evidence = [], evidence_pack = None,
      skip_vector = [], skip_graph = [], skip_rerank = [], fused_evidence = [],
      answer = [], citations = [], confidence = 0, safety_escalation = None\<rparr>"

section \<open>Evidence assembly (\<open>nodes.py\<close>)\<close>

definition make_citation :: "VectorSearchResult \<Rightarrow> Citation" where
  "make_citation passage =
     \<lparr>c_doc_id = doc_id passage,
      c_doc_title = md_title (metadata passage),
      c_section = md_section (metadata passage),
      c_page = md_page (metadata passage),
      excerpt = (if length (content passage) > 200
                 then take 200 (content passage) @ ''...''
                 else content passage),
      relevance_score = score passage\<rparr>"

text \<open>The citation loop, with its two accumulators, the citations so far and \<open>seen_docs\<close>.\<close>

fun build_citations ::
  "VectorSearchResult list \<Rightarrow> Citation list \<Rightarrow> string set \<Rightarrow> Citation list" where
  "build_citations [] cits seen_docs = cits"
| "build_citations (passage # rest) cits seen_docs =
     (if doc_id passage \<notin> seen_docs
      then build_citations rest (cits @ [make_citation passage])
             (insert (doc_id passage) seen_docs)
      else build_citations rest cits seen_docs)"

definition assembler_safety_keywords :: "string list" where
  "assembler_safety_keywords =
     [''warning'', ''caution'', ''danger'', ''ppe'', ''lockout'', ''hazard'']"

definition extract_safety_rules :: "VectorSearchResult list \<Rightarrow> SafetyRule list" where
  "extract_safety_rules ps =
     map (\<lambda>passage. \<lparr>sr_content = content passage, sr_source = doc_id passage,
                      sr_type = ''extracted''\<rparr>)
       (filter (\<lambda>passage. list_ex (\<lambda>kw. str_in kw (str_lower (content passage)))
                  assembler_safety_keywords) ps)"

definition evidence_assembler_node :: "RetrievalState \<Rightarrow> RetrievalState" where
  "evidence_assembler_node state =
     state\<lparr>evidence_pack := Some
       \<lparr>passages = reranked_evidence state,
        ep_graph_facts = graph_facts state,
        safety_rules = extract_safety_rules (reranked_evidence state),
        ep_citations = build_citations (reranked_evidence state) [] {},
        conflicts = []\<rparr>\<rparr>"

text \<open>
  The loops of the pipeline that keep one item per key (a document id, a content hash, a
  fact text) all have the shape "append the item unless its key was seen": the list
  they build is \<open>first_by key xs seen\<close>, the first item of each key not in \<open>seen\<close>, in the
  order of \<open>xs\<close>. The loops are stated through it below.
\<close>

fun first_by :: "('a \<Rightarrow> 'k) \<Rightarrow> 'a list \<Rightarrow> 'k set \<Rightarrow> 'a list" where
  "first_by key [] seen = []"
| "first_by key (x # xs) seen =
     (if key x \<notin> seen then x # first_by key xs (insert (key x) seen)
      else first_by key xs seen)"


section \<open>Hybrid reranking (\<open>nodes.py\<close>)\<close>





section \<open>Skip-connection fusion (\<open>nodes.py\<close>)\<close>

text \<open>\<open>content_hash\<close>: the first 16 characters of the MD5 hex digest. The digest
  function is \<open>hashlib\<close>'s and is a parameter of the model.\<close>

definition content_hash :: "(string \<Rightarrow> string) \<Rightarrow> string \<Rightarrow> string" where
  "content_hash md5_hexdigest c = take 16 (md5_hexdigest c)"

definition weights :: "string \<Rightarrow> real" where
  "weights k = (if k = ''vector'' then 0.3 else if k = ''graph'' then 0.4 else 0.3)"

definition fused_vector :: "VectorSearchResult \<Rightarrow> FusedItem" where
  "fused_vector item =
     \<lparr>fi_content = content item, fi_score = score item * weights ''vector'',
      fi_source = ''vector'', fi_doc_id = Some (doc_id item), fi_nodes = None\<rparr>"

definition fused_graph :: "GraphFact \<Rightarrow> FusedItem" where
  "fused_graph f =
     \<lparr>fi_content = fact f, fi_score = gf_confidence f * weights ''graph'',
      fi_source = ''graph'', fi_doc_id = None, fi_nodes = Some (source_nodes f)\<rparr>"

definition fused_rerank :: "VectorSearchResult \<Rightarrow> FusedItem" where
  "fused_rerank item =
     \<lparr>fi_content = content item, fi_score = score item * weights ''rerank'',
      fi_source = ''rerank'', fi_doc_id = Some (doc_id item), fi_nodes = None\<rparr>"

text \<open>One of the three loops of \<open>skip_fusion_node\<close>: \<open>text_of\<close> reads the hashed text of
  an item, \<open>entry\<close> builds its fused entry; the state of the loop is the list \<open>fused\<close>
  and the set \<open>seen_hashes\<close>.\<close>

fun fusion_loop ::
  "(string \<Rightarrow> string) \<Rightarrow> ('a \<Rightarrow> string) \<Rightarrow> ('a \<Rightarrow> FusedItem) \<Rightarrow> 'a list
     \<Rightarrow> FusedItem list \<times> string set \<Rightarrow> FusedItem list \<times> string set" where
  "fusion_loop md5 text_of entry [] (fused, seen_hashes) = (fused, seen_hashes)"
| "fusion_loop md5 text_of entry (item # rest) (fused, seen_hashes) =
     (let h = content_hash md5 (text_of item) in
      if h \<notin> seen_hashes
      then fusion_loop md5 text_of entry rest (fused @ [entry item], insert h seen_hashes)
      else fusion_loop md5 text_of entry rest (fused, seen_hashes))"

definition skip_fusion_node :: "(string \<Rightarrow> string) \<Rightarrow> RetrievalState \<Rightarrow> RetrievalState" where
  "skip_fusion_node md5 state =
     (let s0 = ([], {});
          s1 = fusion_loop md5 content fused_vector (skip_vector state) s0;
          s2 = fusion_loop md5 fact fused_graph (skip_graph state) s1;
          s3 = fusion_loop md5 content fused_rerank (skip_rerank state) s2;
          fused = sort_reverse fi_score (fst s3)
      in state\<lparr>fused_evidence := take 20 fused\<rparr>)"

section \<open>Context fusion of the session pipeline (\<open>pipeline.py\<close>, stage 5)\<close>



record RerankEntry =
  re_content :: string
  re_score :: real
  re_chunk_id :: string




section \<open>The nodes of the retrieval graph (\<open>nodes.py\<close>) and their gateways\<close>

text \<open>
  The services the nodes call are parameters of the model, one field each: the
  embedding model, the vector store, the language model (the structured extraction call
  and the chat completion, the latter indexed by the number of synthesis calls made
  before it, so that a model may answer differently at every call), the regular
  expression search of the extraction fallback, the graph store, the validation the
  \<open>GraphFact\<close> model applies to the path it is given (the node passes the traversal
  row, the field is declared a list), and the MD5 digest. A gateway that raises returns
  \<open>Inl\<close>.
\<close>

record Gateways =
  embed_query :: "string \<Rightarrow> py_error + real list"
  qdrant_search ::
    "real list \<Rightarrow> nat \<Rightarrow> (string \<times> string list) list option
       \<Rightarrow> py_error + VectorSearchResult list"
  structured_output :: "(string \<times> string) list \<Rightarrow> py_error + ExtractedEntity list"
  asset_tag_matches :: "string \<Rightarrow> string list"
  get_node_by_id :: "string \<Rightarrow> py_error + GraphNode option"
  traverse_from_node :: "string \<Rightarrow> string list \<Rightarrow> nat \<Rightarrow> nat \<Rightarrow> py_error + GraphPath list"
  graph_fact_validates :: "GraphPath \<Rightarrow> bool"
  md5_hexdigest :: "string \<Rightarrow> string"
  chat_completion :: "nat \<Rightarrow> (string \<times> string) list \<Rightarrow> py_error + string"


definition newline :: string where
  "newline = [char_of (10::nat)]"



text \<open>\<open>d.get(w, w)\<close>\<close>

definition get_or_self :: "(string \<times> string) list \<Rightarrow> string \<Rightarrow> string" where
  "get_or_self d w = (case map_of d w of Some v \<Rightarrow> v | None \<Rightarrow> w)"


























section \<open>The retrieval graph (\<open>graph.py\<close>)\<close>
















section \<open>Session memory (\<open>pipeline_langgraph.py\<close>)\<close>

text \<open>
  The module keeps one dictionary from session ids to lists of exchanges; the functions
  below take it and return it updated. The pipeline that answers the query is a
  parameter (it may raise, and then nothing is appended). \<open>RetrievalResult\<close> is modelled
  without its list of timed retrieval steps.
\<close>

record RetrievalResult =
  rr_answer :: string
  rr_sources :: "(string \<times> string \<times> real) list"
  rr_intent :: string
  rr_confidence :: real
  rr_graph_facts :: "string list"

record Exchange =
  x_query :: string
  x_answer :: string
  x_intent :: string

type_synonym session_store = "string \<rightharpoonup> Exchange list"

definition reference_words :: "string list" where
  "reference_words =
     [''he'', ''she'', ''it'', ''they'', ''his'', ''her'', ''their'', ''this'', ''that'',
      ''these'', ''those'']"

definition enhance_query :: "string \<Rightarrow> Exchange list \<Rightarrow> string" where
  "enhance_query q history =
     (if history \<noteq> []
         \<and> list_ex (\<lambda>word. word \<in> set (str_split (str_lower q))) reference_words
      then (let recent = (if length history \<ge> 2 then drop (length history - 2) history
                          else history);
                ctx = str_join newline
                        (map (\<lambda>ex. ''Previous: '' @ x_query ex @ '' -> '' @ take 100 (x_answer ex))
                           recent)
            in ''Context: '' @ ctx @ newline @ newline @ ''Current question: '' @ q)
      else q)"

definition run_full_retrieval ::
  "(string \<Rightarrow> string \<Rightarrow> py_error + RetrievalResult) \<Rightarrow> string \<Rightarrow> string \<Rightarrow> session_store
     \<Rightarrow> (py_error + RetrievalResult) \<times> session_store" where
  "run_full_retrieval run_pipeline_internal q sid store =
     (let store = (case store sid of None \<Rightarrow> store(sid \<mapsto> []) | Some h \<Rightarrow> store);
          history = (case store sid of Some h \<Rightarrow> h | None \<Rightarrow> []);
          enhanced_query = enhance_query q history
      in case run_pipeline_internal enhanced_query sid of
           Inl e \<Rightarrow> (Inl e, store)
         | Inr result \<Rightarrow>
             (let appended = history @ [\<lparr>x_query = q, x_answer = rr_answer result,
                                         x_intent = rr_intent result\<rparr>];
                  store = store(sid \<mapsto> appended);
                  store = (if length appended > 10
                           then store(sid \<mapsto> drop (length appended - 10) appended)
                           else store)
              in (Inr result, store)))"

definition get_session_history :: "session_store \<Rightarrow> string \<Rightarrow> Exchange list" where
  "get_session_history store sid = (case store sid of Some h \<Rightarrow> h | None \<Rightarrow> [])"

definition clear_session :: "session_store \<Rightarrow> string \<Rightarrow> session_store" where
  "clear_session store sid = (if store sid \<noteq> None then store(sid := None) else store)"

text \<open>A sequence of calls on the store: runs (each with the behaviour of the pipeline
  at that call) and clears.\<close>

datatype session_call =
  Run "string \<Rightarrow> string \<Rightarrow> py_error + RetrievalResult" string string
  | Clear string

fun session_calls :: "session_call list \<Rightarrow> session_store \<Rightarrow> session_store" where
  "session_calls [] store = store"
| "session_calls (Run pipeline q sid # rest) store =
     session_calls rest (snd (run_full_retrieval pipeline q sid store))"
| "session_calls (Clear sid # rest) store = session_calls rest (clear_session store sid)"

section \<open>Entity resolution (\<open>ingestion/resolver.py\<close>, \<open>retrieval/embeddings.py\<close>)\<close>

text \<open>The fields of \<open>EntityResolver\<close>, and the resolver its constructor builds by
  default.\<close>

record EntityResolver =
  merge_threshold :: real
  link_threshold :: real
  embedding_weight :: real
  context_weight :: real

definition default_resolver :: EntityResolver where
  "default_resolver =
     \<lparr>merge_threshold = 0.85, link_threshold = 0.70, embedding_weight = 0.6,
      context_weight = 0.4\<rparr>"

definition abbreviation_map :: "(string \<times> string) list" where
  "abbreviation_map =
     [(''pm'', ''preventive maintenance''),
      (''cm'', ''corrective maintenance''),
      (''rca'', ''root cause analysis''),
      (''mtbf'', ''mean time between failures''),
      (''mttr'', ''mean time to repair''),
      (''sop'', ''standard operating procedure''),
      (''ppe'', ''personal protective equipment''),
      (''loto'', ''lockout tagout''),
      (''p&id'', ''piping and instrumentation diagram''),
      (''api'', ''american petroleum institute''),
      (''asme'', ''american society of mechanical engineers'')]"

text \<open>The character classes of the three regular expressions of \<open>normalize\<close>, on
  ASCII text: \<open>[a-z]\<close>, \<open>\d\<close> and \<open>\w\<close>.\<close>

definition is_lower_az :: "char \<Rightarrow> bool" where
  "is_lower_az c = (97 \<le> (of_char c :: nat) \<and> (of_char c :: nat) \<le> 122)"

definition is_digit :: "char \<Rightarrow> bool" where
  "is_digit c = (48 \<le> (of_char c :: nat) \<and> (of_char c :: nat) \<le> 57)"

definition is_word_char :: "char \<Rightarrow> bool" where
  "is_word_char c = (is_lower_az c \<or> is_upper c \<or> is_digit c \<or> c = CHR ''_'')"

definition upper_char :: "char \<Rightarrow> char" where
  "upper_char c = (if is_lower_az c then char_of ((of_char c :: nat) - 32) else c)"

text \<open>\<open>s.upper()\<close>\<close>

definition str_upper :: "string \<Rightarrow> string" where
  "str_upper s = map upper_char s"

text \<open>\<open>re.sub(r"[^\w\s\-]", "", name)\<close>\<close>

definition remove_special :: "string \<Rightarrow> string" where
  "remove_special s = filter (\<lambda>c. is_word_char c \<or> is_space c \<or> c = CHR ''-'') s"

text \<open>\<open>re.sub(r"\s+", " ", name)\<close>: every maximal run of whitespace becomes one space;
  the flag says whether the previous character was whitespace.\<close>

fun collapse_ws :: "bool \<Rightarrow> string \<Rightarrow> string" where
  "collapse_ws in_run [] = []"
| "collapse_ws in_run (c # cs) =
     (if is_space c
      then (if in_run then collapse_ws True cs else CHR '' '' # collapse_ws True cs)
      else c # collapse_ws False cs)"

text \<open>
  \<open>re.match(r"([a-z]+)\s*[-_]?\s*(\d+)\s*([a-z]?)", name)\<close> and the tag built from its
  three groups. Every quantifier of the pattern is followed by a class disjoint from
  its own, so the greedy match is the only one.
\<close>

definition asset_tag :: "string \<Rightarrow> string option" where
  "asset_tag s =
     (let prefix = takeWhile is_lower_az s;
          r1 = dropWhile is_space (dropWhile is_lower_az s);
          r2 = (case r1 of [] \<Rightarrow> []
                | c # cs \<Rightarrow> if c = CHR ''-'' \<or> c = CHR ''_'' then cs else r1);
          r3 = dropWhile is_space r2;
          number = takeWhile is_digit r3;
          r4 = dropWhile is_space (dropWhile is_digit r3);
          suffix = (case r4 of [] \<Rightarrow> [] | c # cs \<Rightarrow> if is_lower_az c then [c] else [])
      in if prefix \<noteq> [] \<and> number \<noteq> []
         then Some (str_upper prefix @ ''-'' @ number @ str_upper suffix)
         else None)"

text \<open>
  The services of the resolver: the embedding model, the two queries on the graph
  store (an exact match on the canonical name, at most one row; a fuzzy match by edit
  distance, which needs an extension of the store and may raise), and Python's
  formatting of a float with two decimals.
\<close>

record NodeRow =
  row_id :: string
  row_name :: string
  row_type :: string
  row_embedding :: "real list option"

record ResolverServices =
  embed_passage :: "string \<Rightarrow> real list"
  exact_match :: "string \<Rightarrow> py_error + NodeRow list"
  fuzzy_match :: "string \<Rightarrow> nat \<Rightarrow> py_error + (NodeRow \<times> nat) list"
  format_2f :: "real \<Rightarrow> string"

record NormalizedEntity =
  canonical_name :: string
  original_name :: string
  ne_type :: EntityType
  ne_embedding :: "real list"

text \<open>\<open>EntityResolver.normalize\<close>\<close>

definition normalize_entity :: "ResolverServices \<Rightarrow> ExtractedEntity \<Rightarrow> NormalizedEntity" where
  "normalize_entity sv entity =
     (let name = str_strip (str_lower (ee_name entity));
          words = str_split name;
          expanded = map (get_or_self abbreviation_map) words;
          name = str_join '' '' expanded;
          name = remove_special name;
          name = str_strip (collapse_ws False name);
          name = (if ee_type entity = ET_ASSET
                  then (case asset_tag name of Some tag \<Rightarrow> tag | None \<Rightarrow> name)
                  else name)
      in \<lparr>canonical_name = name, original_name = ee_name entity, ne_type = ee_type entity,
          ne_embedding = embed_passage sv name\<rparr>)"

text \<open>A candidate: a row of the store with how it was matched and the match score.\<close>

record CandidateRow =
  cand_row :: NodeRow
  match_type :: string
  match_score :: real

definition find_candidates ::
  "ResolverServices \<Rightarrow> NormalizedEntity \<Rightarrow> nat \<Rightarrow> py_error + CandidateRow list" where
  "find_candidates sv normalized limit =
     (case exact_match sv (canonical_name normalized) of
        Inl e \<Rightarrow> Inl e
      | Inr results \<Rightarrow>
          (let candidates =
                 map (\<lambda>r. \<lparr>cand_row = r, match_type = ''exact'', match_score = 1.0\<rparr>) results
           in if candidates \<noteq> [] then Inr (take limit candidates)
              else (case fuzzy_match sv (canonical_name normalized) limit of
                      Inl e \<Rightarrow> Inr (take limit candidates)
                    | Inr rows \<Rightarrow>
                        Inr (take limit
                          (candidates @
                           map (\<lambda>(r, distance).
                                  \<lparr>cand_row = r, match_type = ''fuzzy'',
                                   match_score =
                                     1.0 - real distance
                                           / real (max (length (canonical_name normalized)) 1)\<rparr>)
                             rows)))))"

text \<open>
  \<open>cosine_similarity\<close>: the dot product over the product of the norms. \<open>numpy\<close>
  raises on vectors of different lengths. (For a zero vector \<open>numpy\<close> yields a
  not-a-number, the model yields 0; the resolver then creates in both.)
\<close>

definition dot :: "real list \<Rightarrow> real list \<Rightarrow> real" where
  "dot a b = sum_list (map2 (*) a b)"

definition linalg_norm :: "real list \<Rightarrow> real" where
  "linalg_norm a = sqrt (sum_list (map (\<lambda>x. x * x) a))"

definition cosine_similarity :: "real list \<Rightarrow> real list \<Rightarrow> py_error + real" where
  "cosine_similarity a b =
     (if length a \<noteq> length b then Inl (GatewayError ''ValueError'')
      else Inr (dot a b / (linalg_norm a * linalg_norm b)))"

definition compute_embedding_similarity ::
  "real list option \<Rightarrow> real list option \<Rightarrow> py_error + real" where
  "compute_embedding_similarity embedding1 embedding2 =
     (case (embedding1, embedding2) of
        (Some a, Some b) \<Rightarrow> cosine_similarity a b
      | _ \<Rightarrow> Inr 0.0)"

definition compute_context_similarity :: "NormalizedEntity \<Rightarrow> CandidateRow \<Rightarrow> real" where
  "compute_context_similarity normalized candidate =
     (let s = 0.0;
          s = (if entity_type_value (ne_type normalized) = row_type (cand_row candidate)
               then s + 0.5 else s)
      in min s 1.0)"

record ResolvedEntity =
  res_id :: string
  res_canonical_name :: string
  original_names :: "string list"
  res_type :: EntityType
  res_embedding :: "real list option"

record ResolutionResult =
  action :: string
  entity_id :: string
  canonical :: "ResolvedEntity option"
  link_to :: "string option"
  link_type :: "string option"
  res_confidence :: real
  reasoning :: string

text \<open>A scored candidate: the tuple \<open>(candidate, final_score, emb_score, ctx_score)\<close>.\<close>

type_synonym scored = "CandidateRow \<times> real \<times> real \<times> real"

fun score_candidates ::
  "EntityResolver \<Rightarrow> NormalizedEntity \<Rightarrow> CandidateRow list \<Rightarrow> py_error + scored list" where
  "score_candidates cfg normalized [] = Inr []"
| "score_candidates cfg normalized (candidate # rest) =
     (case compute_embedding_similarity (Some (ne_embedding normalized))
             (row_embedding (cand_row candidate)) of
        Inl e \<Rightarrow> Inl e
      | Inr emb_score \<Rightarrow>
          (let ctx_score = compute_context_similarity normalized candidate;
               final_score = embedding_weight cfg * emb_score + context_weight cfg * ctx_score
           in case score_candidates cfg normalized rest of
                Inl e \<Rightarrow> Inl e
              | Inr others \<Rightarrow> Inr ((candidate, final_score, emb_score, ctx_score) # others)))"

definition new_entity :: "string \<Rightarrow> NormalizedEntity \<Rightarrow> ExtractedEntity \<Rightarrow> ResolvedEntity" where
  "new_entity new_id normalized entity =
     \<lparr>res_id = new_id, res_canonical_name = canonical_name normalized,
      original_names = [ee_name entity], res_type = ee_type entity,
      res_embedding = Some (ne_embedding normalized)\<rparr>"

text \<open>\<open>resolve\<close>; \<open>uuid\<close> is the identifier \<open>uuid4\<close> draws when the result needs a
  new one.\<close>

definition resolve ::
  "EntityResolver \<Rightarrow> ResolverServices \<Rightarrow> string \<Rightarrow> ExtractedEntity
     \<Rightarrow> py_error + ResolutionResult" where
  "resolve cfg sv uuid entity =
     (let normalized = normalize_entity sv entity in
      case find_candidates sv normalized 5 of
        Inl e \<Rightarrow> Inl e
      | Inr candidates \<Rightarrow>
          if candidates = []
          then Inr \<lparr>action = ''CREATE'', entity_id = uuid,
                    canonical = Some (new_entity uuid normalized entity),
                    link_to = None, link_type = None, res_confidence = 1.0, reasoning = []\<rparr>
          else
            (case score_candidates cfg normalized candidates of
               Inl e \<Rightarrow> Inl e
             | Inr scored_list \<Rightarrow>
                 (case sort_reverse (\<lambda>x. fst (snd x)) scored_list of
                    [] \<Rightarrow> Inl IndexError
                  | (candidate, sc, emb_score, ctx_score) # others \<Rightarrow>
                      if sc \<ge> merge_threshold cfg
                      then Inr \<lparr>action = ''MERGE'', entity_id = row_id (cand_row candidate),
                                canonical = None, link_to = None, link_type = None,
                                res_confidence = sc,
                                reasoning = ''emb='' @ format_2f sv emb_score @ '', ctx=''
                                            @ format_2f sv ctx_score\<rparr>
                      else if sc \<ge> link_threshold cfg
                      then Inr \<lparr>action = ''LINK'', entity_id = uuid,
                                canonical = Some (new_entity uuid normalized entity),
                                link_to = Some (row_id (cand_row candidate)),
                                link_type = Some ''RELATED_TO'', res_confidence = sc,
                                reasoning = []\<rparr>
                      else Inr \<lparr>action = ''CREATE'', entity_id = uuid,
                                canonical = Some (new_entity uuid normalized entity),
                                link_to = None, link_type = None, res_confidence = 1.0,
                                reasoning = []\<rparr>)))"

section \<open>Graph expansion of the session pipeline (\<open>retrieval/graph_expander.py\<close>)\<close>
















section \<open>Example inputs\<close>

text \<open>A passage that mentions a lockout, its citation and safety rule,
  and a graph fact.\<close>

definition ex_passage :: VectorSearchResult where
  "ex_passage =
     \<lparr>chunk_id = ''c1'', doc_id = ''sop-7'',
      content = ''Apply lockout before opening valve V-201.'', score = 0.9,
      metadata = \<lparr>md_doc_type = Some ''SOP'', md_title = Some ''Valve SOP'',
                  md_section = None, md_page = Some 3\<rparr>\<rparr>"

definition ex_fact :: GraphFact where
  "ex_fact =
     \<lparr>fact = ''V-201 has safety rule LOTO'', source_nodes = [''V-201'', ''LOTO''],
      path = \<lparr>nodes = [\<lparr>node_id = Some ''V-201'', node_name = Some ''V-201''\<rparr>,
                        \<lparr>node_id = Some ''LOTO'', node_name = Some ''LOTO''\<rparr>],
              relationships = [''HAS_SAFETY_RULE'']\<rparr>,
      gf_confidence = 0.9\<rparr>"

definition ex_pack :: EvidencePack where
  "ex_pack =
     \<lparr>passages = [ex_passage], ep_graph_facts = [ex_fact],
      safety_rules = [\<lparr>sr_content = content ex_passage, sr_source = ''sop-7'',
                       sr_type = ''extracted''\<rparr>],
      ep_citations = [make_citation ex_passage], conflicts = []\<rparr>"

definition ex_state :: "string \<Rightarrow> RetrievalState" where
  "ex_state q = (initial_state q ''anonymous'' ''s1'' INTERNAL ''t1'')\<lparr>evidence_pack := Some ex_pack\<rparr>"

text \<open>A passage of 250 characters, and a second passage of the document of
  \<^const>\<open>ex_passage\<close>.\<close>

definition ex_long :: VectorSearchResult where
  "ex_long =
     \<lparr>chunk_id = ''c2'', doc_id = ''man-1'', content = replicate 250 (CHR ''x''),
      score = 0.8,
      metadata = \<lparr>md_doc_type = Some ''OEM_MANUAL'', md_title = None,
                  md_section = None, md_page = None\<rparr>\<rparr>"

definition ex_passage_b :: VectorSearchResult where
  "ex_passage_b = ex_passage\<lparr>chunk_id := ''c3'', content := ''Close valve V-201.''\<rparr>"

definition ex_reranked :: RetrievalState where
  "ex_reranked =
     (initial_state ''valve'' ''anonymous'' ''s1'' INTERNAL ''t1'')
       \<lparr>reranked_evidence := [ex_passage, ex_long, ex_passage_b]\<rparr>"












text \<open>Ten runs in one session, with a pipeline that always answers.\<close>

definition ex_pipeline :: "string \<Rightarrow> string \<Rightarrow> py_error + RetrievalResult" where
  "ex_pipeline q sid =
     Inr \<lparr>rr_answer = ''ok'', rr_sources = [], rr_intent = ''procedure'', rr_confidence = 0.5,
          rr_graph_facts = []\<rparr>"

definition ex_calls :: "session_call list" where
  "ex_calls =
     map (\<lambda>q. Run ex_pipeline q ''s1'')
       [''q1'', ''q2'', ''q3'', ''q4'', ''q5'', ''q6'', ''q7'', ''q8'', ''q9'', ''q10'']"

text \<open>
  A graph store that holds the node \<open>e-17\<close> with canonical name \<open>seal\<close>, label
  \<open>Component\<close> and the embedding the model gives that name, without the fuzzy-match
  extension; and the extracted entity \<open>Seal\<close> of type \<open>COMPONENT\<close>.
\<close>

definition ex_row :: NodeRow where
  "ex_row = \<lparr>row_id = ''e-17'', row_name = ''seal'', row_type = ''Component'',
             row_embedding = Some [1, 0]\<rparr>"

definition ex_services :: ResolverServices where
  "ex_services =
     \<lparr>embed_passage = (\<lambda>s. [1, 0]),
      exact_match = (\<lambda>name. if name = ''seal'' then Inr [ex_row] else Inr []),
      fuzzy_match = (\<lambda>name limit. Inl (GatewayError ''apoc'')),
      format_2f = (\<lambda>x. ''0.00'')\<rparr>"

definition ex_entity :: ExtractedEntity where
  "ex_entity =
     \<lparr>ee_name = ''Seal'', ee_type = ET_COMPONENT, ee_confidence = 0.9, ee_context = [],
      ee_source_chunk_id = None\<rparr>"

definition ex_candidate_row :: CandidateRow where
  "ex_candidate_row = \<lparr>cand_row = ex_row, match_type = ''exact'', match_score = 1.0\<rparr>"




section \<open>Properties of the sufficiency gate\<close>

lemma list_ex_str_in_iff:
  "list_ex (\<lambda>kw. str_in kw s) kws \<longleftrightarrow> (\<exists>kw\<in>set kws. \<exists>pre post. s = pre @ kw @ post)"
  by (auto simp: list_ex_iff str_in_def sublist_def)

text \<open>
  Claim C3. The gate returns the first of its four conditions that applies:
  no evidence pack gives \<open>insufficient\<close>; else a safety rule together with one of the
  keywords bypass, override, shortcut, skip, disable in the (lower-cased) raw query
  gives \<open>safety_critical\<close>; else fewer than two passages plus graph facts, or no
  citation, gives \<open>insufficient\<close>; otherwise \<open>sufficient\<close>.
\<close>

theorem evidence_sufficiency_check_order:
  fixes state :: RetrievalState
  defines "bypass_intent \<equiv>
    (\<exists>kw \<in> {''bypass'', ''override'', ''shortcut'', ''skip'', ''disable''}.
       \<exists>pre post. str_lower (query state) = pre @ kw @ post)"
  shows "(evidence_pack state = None \<longrightarrow> evidence_sufficiency_check state = Insufficient)
    \<and> (\<forall>e. evidence_pack state = Some e \<longrightarrow>
         (safety_rules e \<noteq> [] \<and> bypass_intent
            \<longrightarrow> evidence_sufficiency_check state = Safety_critical)
       \<and> (\<not> (safety_rules e \<noteq> [] \<and> bypass_intent)
            \<and> (length (passages e) + length (ep_graph_facts e) < 2 \<or> ep_citations e = [])
            \<longrightarrow> evidence_sufficiency_check state = Insufficient)
       \<and> (\<not> (safety_rules e \<noteq> [] \<and> bypass_intent)
            \<and> \<not> (length (passages e) + length (ep_graph_facts e) < 2 \<or> ep_citations e = [])
            \<longrightarrow> evidence_sufficiency_check state = Sufficient))"
proof -
  have kw: "list_ex (\<lambda>kw. str_in kw (str_lower (query state))) safety_keywords
            = bypass_intent"
    unfolding bypass_intent_def list_ex_str_in_iff safety_keywords_def by simp
  show ?thesis
    unfolding evidence_sufficiency_check_def kw by (simp split: option.split)
qed


theorem evidence_sufficiency_check_order_witness:
  "evidence_sufficiency_check (initial_state ''Any question'' ''anonymous'' ''s1'' INTERNAL ''t1'')
     = Insufficient
   \<and> evidence_sufficiency_check (ex_state ''How do I bypass the interlock?'') = Safety_critical
   \<and> evidence_sufficiency_check (ex_state ''What PPE is required for valve V-201?'') = Sufficient"
proof -
  let ?s0 = "initial_state ''Any question'' ''anonymous'' ''s1'' INTERNAL ''t1''"
  let ?s1 = "ex_state ''How do I bypass the interlock?''"
  let ?s2 = "ex_state ''What PPE is required for valve V-201?''"
  let ?K = "{''bypass'', ''override'', ''shortcut'', ''skip'', ''disable''}"
  have n: "evidence_pack ?s0 = None"
    by (simp add: initial_state_def)
  have a: "evidence_sufficiency_check ?s0 = Insufficient"
    using evidence_sufficiency_check_order [of ?s0, THEN conjunct1, THEN mp, OF n] .
  have q1: "str_lower (query ?s1) = ''how do i '' @ ''bypass'' @ '' the interlock?''"
    by code_simp
  have h1: "\<exists>kw \<in> ?K. \<exists>pre post. str_lower (query ?s1) = pre @ kw @ post"
    apply (rule bexI [of _ "''bypass''"])
     apply (rule exI [of _ "''how do i ''"])
     apply (rule exI [of _ "'' the interlock?''"])
     apply (rule q1)
    apply simp
    done
  have p: "evidence_pack (ex_state q) = Some ex_pack" for q
    by (simp add: ex_state_def)
  have r1: "safety_rules ex_pack \<noteq> []"
    by (simp add: ex_pack_def)
  have r2: "\<not> (length (passages ex_pack) + length (ep_graph_facts ex_pack) < 2
        \<or> ep_citations ex_pack = [])"
    by (simp add: ex_pack_def)
  note t1 = evidence_sufficiency_check_order
    [of ?s1, THEN conjunct2, THEN spec [where x = ex_pack], THEN mp, OF p]
  have b: "evidence_sufficiency_check ?s1 = Safety_critical"
    using t1 [THEN conjunct1, THEN mp, OF conjI [OF r1 h1]] .
  have h2: "\<not> (\<exists>kw \<in> ?K. \<exists>pre post. str_lower (query ?s2) = pre @ kw @ post)"
    unfolding sublist_def [symmetric] by code_simp
  then have h2': "\<not> (safety_rules ex_pack \<noteq> []
      \<and> (\<exists>kw \<in> ?K. \<exists>pre post. str_lower (query ?s2) = pre @ kw @ post))"
    by (rule contrapos_nn) (erule conjunct2)
  note t2 = evidence_sufficiency_check_order
    [of ?s2, THEN conjunct2, THEN spec [where x = ex_pack], THEN mp, OF p]
  have c: "evidence_sufficiency_check ?s2 = Sufficient"
    using t2 [THEN conjunct2, THEN conjunct2, THEN mp, OF conjI [OF h2' r2]] .
  from a b c show ?thesis by (intro conjI)
qed

section \<open>Keeping the first item of each key\<close>

lemma subseq_first_by: "subseq (first_by key xs seen) xs"
  by (induction xs arbitrary: seen) auto

lemma keys_first_by: "key ` set (first_by key xs seen) = key ` set xs - seen"
  by (induction xs arbitrary: seen) auto

lemma distinct_first_by: "distinct (map key (first_by key xs seen))"
proof (induction xs arbitrary: seen)
  case Nil
  then show ?case by simp
next
  case (Cons x xs)
  have "key x \<notin> key ` set (first_by key xs (insert (key x) seen))"
    by (simp add: keys_first_by)
  with Cons show ?case by simp
qed

lemma find_first_by:
  "q \<in> set (first_by key xs seen) \<Longrightarrow> find (\<lambda>x. key x = key q) xs = Some q"
proof (induction xs arbitrary: seen)
  case Nil
  then show ?case by simp
next
  case (Cons x xs)
  show ?case
  proof (cases "key x \<in> seen")
    case True
    with Cons.prems have q: "q \<in> set (first_by key xs seen)" by simp
    then have "key q \<in> key ` set xs - seen"
      using keys_first_by [of key xs seen] by blast
    with True have "key x \<noteq> key q" by auto
    with Cons.IH [OF q] show ?thesis by simp
  next
    case False
    with Cons.prems have "q = x \<or> q \<in> set (first_by key xs (insert (key x) seen))"
      by simp
    then show ?thesis
    proof
      assume "q = x"
      then show ?thesis by simp
    next
      assume q: "q \<in> set (first_by key xs (insert (key x) seen))"
      then have "key q \<in> key ` set xs - insert (key x) seen"
        using keys_first_by [of key xs "insert (key x) seen"] by blast
      then have "key x \<noteq> key q" by auto
      with Cons.IH [OF q] show ?thesis by simp
    qed
  qed
qed




lemma build_citations_first_by:
  "build_citations ps acc seen = acc @ map make_citation (first_by doc_id ps seen)"
  by (induction ps arbitrary: acc seen) auto

section \<open>Properties of evidence assembly\<close>

text \<open>
  Claim C7. The evidence pack built by evidence assembly has at most one citation per
  document id; the citations are those of the first passage of each document, in the
  order of the reranked passages; and each excerpt is the passage's content, cut to
  200 characters with \<open>...\<close> appended exactly when the content is longer than 200.
\<close>

theorem evidence_assembler_citations:
  "\<exists>pack. evidence_pack (evidence_assembler_node state) = Some pack
     \<and> passages pack = reranked_evidence state
     \<and> distinct (map c_doc_id (ep_citations pack))
     \<and> c_doc_id ` set (ep_citations pack) = doc_id ` set (reranked_evidence state)
     \<and> (\<exists>firsts. subseq firsts (reranked_evidence state)
            \<and> map c_doc_id (ep_citations pack) = map doc_id firsts
            \<and> (\<forall>q \<in> set firsts.
                  find (\<lambda>p. doc_id p = doc_id q) (reranked_evidence state) = Some q))
     \<and> (\<forall>c \<in> set (ep_citations pack).
           \<exists>p. find (\<lambda>p. doc_id p = c_doc_id c) (reranked_evidence state) = Some p
              \<and> excerpt c = (if length (content p) > 200 then take 200 (content p) @ ''...''
                              else content p))"
proof -
  let ?ps = "reranked_evidence state"
  let ?fs = "first_by doc_id ?ps {}"
  let ?cs = "map make_citation ?fs"
  have ids: "map c_doc_id ?cs = map doc_id ?fs"
    by (simp add: make_citation_def)
  have d: "distinct (map c_doc_id ?cs)"
    unfolding ids by (rule distinct_first_by)
  have s: "c_doc_id ` set ?cs = doc_id ` set ?ps"
    using keys_first_by [of doc_id ?ps "{}"] ids
    by (metis Diff_empty set_map)
  have f: "\<forall>q \<in> set ?fs. find (\<lambda>p. doc_id p = doc_id q) ?ps = Some q"
    using find_first_by [of _ doc_id ?ps "{}"] by blast
  have e: "\<forall>c \<in> set ?cs.
           \<exists>p. find (\<lambda>p. doc_id p = c_doc_id c) ?ps = Some p
              \<and> excerpt c = (if length (content p) > 200 then take 200 (content p) @ ''...''
                              else content p)"
  proof
    fix c assume "c \<in> set ?cs"
    then obtain q where q: "q \<in> set ?fs" and c: "c = make_citation q" by auto
    from find_first_by [OF q] c
    show "\<exists>p. find (\<lambda>p. doc_id p = c_doc_id c) ?ps = Some p
              \<and> excerpt c = (if length (content p) > 200 then take 200 (content p) @ ''...''
                              else content p)"
      by (simp add: make_citation_def)
  qed
  show ?thesis
    unfolding evidence_assembler_node_def build_citations_first_by
    using d s f e subseq_first_by [of doc_id ?ps "{}"] ids
    by (simp del: set_map map_map) blast
qed

theorem evidence_assembler_citations_witness:
  "\<exists>pack. evidence_pack (evidence_assembler_node ex_reranked) = Some pack
     \<and> map c_doc_id (ep_citations pack) = [''sop-7'', ''man-1'']
     \<and> make_citation ex_long \<in> set (ep_citations pack)
     \<and> (\<exists>p. find (\<lambda>p. doc_id p = ''man-1'') (reranked_evidence ex_reranked) = Some p
            \<and> length (content p) = 250
            \<and> excerpt (make_citation ex_long) = take 200 (content p) @ ''...'')"
proof -
  from evidence_assembler_citations [of ex_reranked] obtain pack where
    p: "evidence_pack (evidence_assembler_node ex_reranked) = Some pack" and
    e: "\<forall>c \<in> set (ep_citations pack).
           \<exists>p. find (\<lambda>p. doc_id p = c_doc_id c) (reranked_evidence ex_reranked) = Some p
              \<and> excerpt c = (if length (content p) > 200 then take 200 (content p) @ ''...''
                              else content p)"
    by blast
  have c: "ep_citations pack = [make_citation ex_passage, make_citation ex_long]"
    using p
    by (auto simp: evidence_assembler_node_def ex_reranked_def initial_state_def
        ex_passage_def ex_long_def ex_passage_b_def)
  have m: "make_citation ex_long \<in> set (ep_citations pack)"
    by (simp add: c)
  have i: "c_doc_id (make_citation ex_long) = ''man-1''"
    by (simp add: make_citation_def ex_long_def)
  from e m i obtain q where
    q: "find (\<lambda>p. doc_id p = ''man-1'') (reranked_evidence ex_reranked) = Some q" and
    x: "excerpt (make_citation ex_long)
          = (if length (content q) > 200 then take 200 (content q) @ ''...'' else content q)"
    by metis
  from q have l: "length (content q) = 250"
    by (auto simp: ex_reranked_def initial_state_def ex_passage_def ex_long_def)
  have d: "map c_doc_id (ep_citations pack) = [''sop-7'', ''man-1'']"
    by (simp add: c make_citation_def ex_passage_def ex_long_def)
  from p d m q l x show ?thesis by auto
qed

section \<open>Properties of hybrid reranking\<close>


lemma sort_reverse_sorted: "sorted_wrt (\<lambda>a b. f a \<ge> f b) (sort_reverse f xs)"
proof -
  have "sorted (map (\<lambda>x. - f x) (sort_key (\<lambda>x. - f x) xs))"
    by (rule sorted_sort_key)
  then show ?thesis
    by (simp add: sort_reverse_def sorted_map)
qed

lemma sort_reverse_stable:
  "filter (\<lambda>x. f x = k) (sort_reverse f xs) = filter (\<lambda>x. f x = k) xs"
  using sort_key_stable [of "\<lambda>x. - f x" "- k" xs] by (simp add: sort_reverse_def)




section \<open>Properties of skip-connection fusion\<close>








section \<open>Properties of the synthesis cycle\<close>











lemma skip_fusion_node_frame:
  "safety_escalation (skip_fusion_node h s) = safety_escalation s"
  "evidence_pack (skip_fusion_node h s) = evidence_pack s"
  by (simp_all add: skip_fusion_node_def Let_def)









section \<open>Runs of the retrieval graph\<close>







section \<open>Properties of the session memory\<close>

lemma history_after_run:
  "get_session_history (snd (run_full_retrieval p q sid store)) sid' =
     (if sid' \<noteq> sid then get_session_history store sid'
      else case p (enhance_query q (get_session_history store sid)) sid of
             Inl e \<Rightarrow> get_session_history store sid
           | Inr r \<Rightarrow>
               (let appended = get_session_history store sid
                      @ [\<lparr>x_query = q, x_answer = rr_answer r, x_intent = rr_intent r\<rparr>]
                in drop (length appended - 10) appended))"
  by (auto simp: run_full_retrieval_def get_session_history_def Let_def
      split: sum.splits option.splits)

lemma history_after_clear:
  "get_session_history (clear_session store sid) sid' =
     (if sid' = sid then [] else get_session_history store sid')"
  by (auto simp: clear_session_def get_session_history_def split: option.splits)

lemma session_calls_bounded:
  assumes "\<forall>sid. length (get_session_history store sid) \<le> 10"
  shows "length (get_session_history (session_calls calls store) sid) \<le> 10"
  using assms
proof (induction calls arbitrary: store sid)
  case Nil
  then show ?case by simp
next
  case (Cons c calls)
  show ?case
  proof (cases c)
    case (Run p q s)
    have "\<forall>sid'. length (get_session_history (snd (run_full_retrieval p q s store)) sid') \<le> 10"
      using Cons.prems by (auto simp: history_after_run Let_def split: sum.splits)
    from Cons.IH [OF this] Run show ?thesis by simp
  next
    case (Clear s)
    have "\<forall>sid'. length (get_session_history (clear_session store s) sid') \<le> 10"
      using Cons.prems by (simp add: history_after_clear)
    from Cons.IH [OF this] Clear show ?thesis by simp
  qed
qed

text \<open>
  Claim C10. After any sequence of calls (runs and clears, starting from the empty
  store) the history of every session holds at most 10 exchanges; a run whose pipeline
  returns appends its exchange, and when the history already holds 10 the oldest
  exchange is dropped.
\<close>

theorem session_history_bounded:
  fixes calls :: "session_call list" and sid :: string
  defines "store \<equiv> session_calls calls Map.empty"
  defines "h \<equiv> get_session_history store sid"
  shows "length h \<le> 10
    \<and> (\<forall>pipeline q r. pipeline (enhance_query q h) sid = Inr r \<longrightarrow>
          get_session_history (snd (run_full_retrieval pipeline q sid store)) sid
            = (if length h < 10 then h else tl h)
              @ [\<lparr>x_query = q, x_answer = rr_answer r, x_intent = rr_intent r\<rparr>])"
proof -
  have b: "length h \<le> 10"
    unfolding h_def store_def
    by (rule session_calls_bounded) (simp add: get_session_history_def)
  have "drop (length (h @ [x]) - 10) (h @ [x]) = (if length h < 10 then h else tl h) @ [x]" for x
  proof (cases "length h < 10")
    case True
    then show ?thesis by simp
  next
    case False
    with b have "length h = 10" by simp
    then show ?thesis by (simp add: drop_Suc)
  qed
  with b show ?thesis
    by (simp add: history_after_run h_def Let_def)
qed

theorem session_history_bounded_witness:
  "length (get_session_history (session_calls ex_calls Map.empty) ''s1'') = 10
   \<and> get_session_history
        (snd (run_full_retrieval ex_pipeline ''q11'' ''s1'' (session_calls ex_calls Map.empty)))
        ''s1''
      = tl (get_session_history (session_calls ex_calls Map.empty) ''s1'')
        @ [\<lparr>x_query = ''q11'', x_answer = ''ok'', x_intent = ''procedure''\<rparr>]"
proof -
  let ?h = "get_session_history (session_calls ex_calls Map.empty) ''s1''"
  let ?r = "\<lparr>rr_answer = ''ok'', rr_sources = [], rr_intent = ''procedure'',
             rr_confidence = 0.5, rr_graph_facts = []\<rparr>"
  have l: "length ?h = 10"
    by code_simp
  have p: "ex_pipeline (enhance_query ''q11'' ?h) ''s1'' = Inr ?r"
    by (simp add: ex_pipeline_def)
  from session_history_bounded [of ex_calls "''s1''", THEN conjunct2,
      THEN spec [where x = ex_pipeline], THEN spec [where x = "''q11''"],
      THEN spec [where x = ?r], THEN mp, OF p] l
  show ?thesis by simp
qed

section \<open>Properties of entity resolution\<close>

lemma sum_squares_nonneg: "0 \<le> sum_list (map (\<lambda>x. x * x) (a::real list))"
  by (induction a) auto

lemma cs_step:
  fixes x y d A B :: real
  assumes "d\<^sup>2 \<le> A * B" "0 \<le> A" "0 \<le> B"
  shows "(x * y + d)\<^sup>2 \<le> (x * x + A) * (y * y + B)"
proof -
  have "\<bar>d\<bar> \<le> sqrt (A * B)"
    using assms(1) by (simp add: real_le_rsqrt)
  then have d: "\<bar>d\<bar> \<le> sqrt A * sqrt B"
    by (simp add: real_sqrt_mult)
  have "0 \<le> (\<bar>x\<bar> * sqrt B - \<bar>y\<bar> * sqrt A)\<^sup>2" by simp
  also have "\<dots> = x * x * B + y * y * A - 2 * (\<bar>x\<bar> * \<bar>y\<bar>) * (sqrt A * sqrt B)"
    using assms(2,3) by (simp add: power2_eq_square algebra_simps)
  finally have "2 * (\<bar>x\<bar> * \<bar>y\<bar>) * (sqrt A * sqrt B) \<le> x * x * B + y * y * A" by simp
  moreover have "2 * (\<bar>x\<bar> * \<bar>y\<bar>) * \<bar>d\<bar> \<le> 2 * (\<bar>x\<bar> * \<bar>y\<bar>) * (sqrt A * sqrt B)"
    using d by (intro mult_left_mono) auto
  moreover have "2 * (x * y) * d \<le> 2 * (\<bar>x\<bar> * \<bar>y\<bar>) * \<bar>d\<bar>"
    by (metis abs_ge_self abs_mult abs_numeral mult.assoc)
  ultimately have "2 * (x * y) * d \<le> x * x * B + y * y * A" by linarith
  with assms(1) show ?thesis
    by (simp add: power2_eq_square algebra_simps)
qed

lemma cauchy_schwarz_list:
  "length a = length b \<Longrightarrow>
   (dot a b)\<^sup>2 \<le> sum_list (map (\<lambda>x. x * x) a) * sum_list (map (\<lambda>x. x * x) b)"
proof (induction a b rule: list_induct2)
  case Nil
  then show ?case by (simp add: dot_def)
next
  case (Cons x xs y ys)
  from cs_step [OF Cons.IH [unfolded dot_def] sum_squares_nonneg sum_squares_nonneg, of x y]
  show ?case by (simp add: dot_def)
qed

lemma cosine_le_1:
  assumes "length a = length b"
  shows "dot a b / (linalg_norm a * linalg_norm b) \<le> 1"
proof -
  have "\<bar>dot a b\<bar> \<le> sqrt (sum_list (map (\<lambda>x. x * x) a) * sum_list (map (\<lambda>x. x * x) b))"
    using cauchy_schwarz_list [OF assms] by (simp add: real_le_rsqrt)
  then have "dot a b \<le> linalg_norm a * linalg_norm b"
    by (simp add: linalg_norm_def real_sqrt_mult)
  moreover have "0 \<le> linalg_norm a * linalg_norm b"
    by (simp add: linalg_norm_def sum_squares_nonneg)
  ultimately show ?thesis
  proof (cases "linalg_norm a * linalg_norm b = 0")
    case True
    then have "dot a b / (linalg_norm a * linalg_norm b) = 0" by (simp only: div_by_0)
    then show ?thesis by linarith
  next
    case False
    from False \<open>0 \<le> linalg_norm a * linalg_norm b\<close> have "0 < linalg_norm a * linalg_norm b" by (rule order_neq_le_trans [OF not_sym])
    with \<open>dot a b \<le> linalg_norm a * linalg_norm b\<close> show ?thesis
      by (simp only: pos_divide_le_eq mult_1)
  qed
qed

lemma cosine_similarity_le_1:
  "cosine_similarity a b = Inr c \<Longrightarrow> c \<le> 1"
  using cosine_le_1 [of a b] by (auto simp: cosine_similarity_def split: if_splits)

lemma compute_embedding_similarity_le_1:
  "compute_embedding_similarity x y = Inr c \<Longrightarrow> c \<le> 1"
  by (auto simp: compute_embedding_similarity_def dest: cosine_similarity_le_1
      split: option.splits)

lemma compute_context_similarity_cases:
  "compute_context_similarity n c
     = (if entity_type_value (ne_type n) = row_type (cand_row c) then 0.5 else 0)"
  by (simp add: compute_context_similarity_def Let_def)

lemma score_candidates_Inr:
  assumes "score_candidates cfg n cs = Inr sl"
  shows "map fst sl = cs"
    and "\<forall>(c, sc, e, x) \<in> set sl.
           compute_embedding_similarity (Some (ne_embedding n)) (row_embedding (cand_row c)) = Inr e
           \<and> x = compute_context_similarity n c
           \<and> sc = embedding_weight cfg * e + context_weight cfg * x"
  using assms
  by (induction cs arbitrary: sl) (auto simp: Let_def split: sum.splits)

lemma filter_Cons_find: "filter P xs = b # ys \<Longrightarrow> find P xs = Some b"
  by (induction xs) (auto split: if_splits)

lemma sort_reverse_hd:
  assumes "xs \<noteq> []"
  obtains b rest where "sort_reverse f xs = b # rest" "b \<in> set xs"
    "\<forall>x \<in> set xs. f x \<le> f b" "find (\<lambda>y. f y = f b) xs = Some b"
proof -
  from assms have "sort_reverse f xs \<noteq> []"
    by (metis length_0_conv length_sort sort_reverse_def)
  then obtain b rest where s: "sort_reverse f xs = b # rest"
    by (cases "sort_reverse f xs") auto
  have m: "set (sort_reverse f xs) = set xs"
    by (simp add: sort_reverse_def)
  with s have b: "b \<in> set xs" by auto
  from sort_reverse_sorted [of f xs] s have "\<forall>x \<in> set rest. f x \<le> f b" by simp
  with m s have le: "\<forall>x \<in> set xs. f x \<le> f b" by auto
  from sort_reverse_stable [of f "f b" xs] s
  have "filter (\<lambda>y. f y = f b) xs = b # filter (\<lambda>y. f y = f b) rest" by simp
  then have "find (\<lambda>y. f y = f b) xs = Some b" by (rule filter_Cons_find)
  with s b le that show thesis by blast
qed

lemma ex_find_candidates:
  "find_candidates ex_services (normalize_entity ex_services ex_entity) 5 = Inr [ex_candidate_row]"
  by code_simp

lemma ex_score_candidates:
  assumes "embedding_weight cfg = 0.6" and "context_weight cfg = 0.4"
  shows "score_candidates cfg (normalize_entity ex_services ex_entity) [ex_candidate_row]
         = Inr [(ex_candidate_row, 0.6, 1, 0)]"
proof -
  have n: "ne_embedding (normalize_entity ex_services ex_entity) = [1, 0]"
    "ne_type (normalize_entity ex_services ex_entity) = ET_COMPONENT"
    by (simp_all add: normalize_entity_def Let_def ex_services_def ex_entity_def)
  have e: "compute_embedding_similarity (Some [1, 0]) (row_embedding (cand_row ex_candidate_row))
           = Inr 1"
    by (simp add: compute_embedding_similarity_def cosine_similarity_def dot_def
        linalg_norm_def ex_candidate_row_def ex_row_def)
  have x: "compute_context_similarity (normalize_entity ex_services ex_entity) ex_candidate_row = 0"
    by (simp add: compute_context_similarity_cases n ex_candidate_row_def ex_row_def)
  show ?thesis
    by (simp add: n e x assms)
qed



text \<open>
  Claim C2 does not hold of the code. Under the default configuration no call of
  \<open>resolve\<close> returns \<open>MERGE\<close>: a cosine similarity is at most 1 and the context
  similarity at most 0.5, so a score is at most \<open>0.6 * 1 + 0.4 * 0.5 = 0.8\<close>, below the
  merge threshold 0.85. Resolving an entity whose canonical name is in the graph
  creates (or links) a new entity under a new id, each time.
\<close>

theorem resolve_never_merges:
  assumes "resolve default_resolver sv uuid entity = Inr r"
  shows "action r \<noteq> ''MERGE''"
proof
  assume a: "action r = ''MERGE''"
  let ?n = "normalize_entity sv entity"
  from assms obtain candidates where c: "find_candidates sv ?n 5 = Inr candidates"
    by (auto simp: resolve_def Let_def split: sum.splits)
  with assms a have ne: "candidates \<noteq> []"
    by (auto simp: resolve_def Let_def)
  with assms c obtain sl where sl: "score_candidates default_resolver ?n candidates = Inr sl"
    by (auto simp: resolve_def Let_def split: sum.splits)
  from score_candidates_Inr(1) [OF sl] ne have "sl \<noteq> []" by auto
  from sort_reverse_hd [OF this, of "\<lambda>x. fst (snd x)"] obtain b rest where
    s: "sort_reverse (\<lambda>x. fst (snd x)) sl = b # rest" and b: "b \<in> set sl"
    by blast
  obtain best sc e x where bb: "b = (best, sc, e, x)" by (cases b) auto
  from score_candidates_Inr(2) [OF sl] b bb have
    e: "compute_embedding_similarity (Some (ne_embedding ?n)) (row_embedding (cand_row best)) = Inr e"
    and x: "x = compute_context_similarity ?n best"
    and sc: "sc = embedding_weight default_resolver * e + context_weight default_resolver * x"
    by auto
  from compute_embedding_similarity_le_1 [OF e] have "e \<le> 1" .
  moreover from x have "x \<le> 0.5" by (simp add: compute_context_similarity_cases)
  ultimately have "sc < 0.85"
    using sc by (simp add: default_resolver_def)
  with assms c ne sl s bb a show False
    by (auto simp: resolve_def Let_def default_resolver_def split: if_splits)
qed

theorem resolve_never_merges_witness:
  "\<exists>r1 r2. resolve default_resolver ex_services ''uuid-1'' ex_entity = Inr r1
     \<and> resolve default_resolver ex_services ''uuid-2'' ex_entity = Inr r2
     \<and> action r1 \<noteq> ''MERGE'' \<and> action r2 \<noteq> ''MERGE''
     \<and> action r1 = ''CREATE'' \<and> action r2 = ''CREATE''
     \<and> entity_id r1 = ''uuid-1'' \<and> entity_id r2 = ''uuid-2''"
proof -
  have s: "sort_reverse f [x] = [x]" for f and x :: scored
    by (simp add: sort_reverse_def)
  have w: "embedding_weight default_resolver = 0.6" "context_weight default_resolver = 0.4"
    by (simp_all add: default_resolver_def)
  have th: "merge_threshold default_resolver = 0.85" "link_threshold default_resolver = 0.7"
    by (simp_all add: default_resolver_def)
  have "\<exists>r. resolve default_resolver ex_services u ex_entity = Inr r
           \<and> action r = ''CREATE'' \<and> entity_id r = u" for u
    by (simp add: resolve_def Let_def ex_find_candidates ex_score_candidates [OF w] s th
        del: score_candidates.simps)
  from this [of "''uuid-1''"] this [of "''uuid-2''"] obtain r1 r2 where
    r: "resolve default_resolver ex_services ''uuid-1'' ex_entity = Inr r1"
      "resolve default_resolver ex_services ''uuid-2'' ex_entity = Inr r2"
      "action r1 = ''CREATE''" "action r2 = ''CREATE''"
      "entity_id r1 = ''uuid-1''" "entity_id r2 = ''uuid-2''"
    by blast
  from resolve_never_merges [OF r(1)] resolve_never_merges [OF r(2)] r
  show ?thesis by blast
qed

section \<open>Properties of graph expansion\<close>





end
